theory Spec2Isabelle
  imports Main
begin

section \<open>The \<^verbatim>\<open>switch\<close> of \<^verbatim>\<open>cycleRouteStatus\<close> (static/js/main.js)\<close>

text \<open>
  A button's \<^verbatim>\<open>dataset.currentStatus\<close> is a string, or \<^verbatim>\<open>undefined\<close> when the
  attribute is absent (\<open>None\<close>). The \<^verbatim>\<open>switch\<close> of \<^verbatim>\<open>cycleRouteStatus\<close> computes a
  next status from it; every value it does not know falls to the \<^verbatim>\<open>default\<close> branch.
  The function never reads the result again: the request carries no status, and the
  button takes the status of the server's answer.
\<close>

definition newStatus :: "string option \<Rightarrow> string" where
  "newStatus currentStatus =
     (if currentStatus = Some ''not_present'' then ''arrived''
      else if currentStatus = Some ''arrived'' then ''ready''
      else if currentStatus = Some ''ready'' then ''not_present''
      else ''not_present'')"

section \<open>The rendered page\<close>

text \<open>
  The status button of a route row, with the properties the scripts read and write:
  \<^verbatim>\<open>className\<close>, \<^verbatim>\<open>dataset.currentStatus\<close>, \<^verbatim>\<open>innerHTML\<close>, \<^verbatim>\<open>disabled\<close> and
  \<^verbatim>\<open>dataset.processing\<close>. A dataset entry that was never set is \<open>None\<close>.
\<close>

record button =
  className :: string
  currentStatus :: "string option"
  innerHTML :: string
  disabled :: bool
  processing :: "string option"

text \<open>
  A table row: the \<^verbatim>\<open>value\<close> attributes of the \<^verbatim>\<open>input\<close> elements inside it, in
  document order, and the element that \<^verbatim>\<open>row.cells[2]?.querySelector('.status-button')\<close>
  returns (\<open>None\<close> when the row has no third cell or the cell holds no such button).
  The document is the list of its top-level items in document order: an \<^verbatim>\<open>input\<close>
  outside every \<^verbatim>\<open>tr\<close>, or a \<^verbatim>\<open>tr\<close>.
\<close>

record tr =
  inputs :: "string list"
  statusButton :: "button option"

datatype node = Loose string | Row tr

text \<open>One entry of the \<^verbatim>\<open>routes\<close> object of a sync payload.\<close>

record routeData =
  status :: string
  status_color :: string

text \<open>
  \<^verbatim>\<open>document.querySelector(`input[value="${routeId}"]`)?.closest('tr')\<close>: the first
  \<^verbatim>\<open>input\<close> of the document with that value decides; when it lies outside every row
  the result is \<^verbatim>\<open>null\<close>. The row is returned with its position, which stands for
  the reference to the element. Route identifiers are taken to be free of quotes and
  backslashes, so that the selector is well formed.
\<close>

fun findRow :: "string \<Rightarrow> node list \<Rightarrow> (nat \<times> tr) option" where
  "findRow v [] = None"
| "findRow v (Loose x # ns) =
     (if x = v then None else map_option (\<lambda>(i, r). (Suc i, r)) (findRow v ns))"
| "findRow v (Row r # ns) =
     (if v \<in> set (inputs r) then Some (0, r)
      else map_option (\<lambda>(i, r). (Suc i, r)) (findRow v ns))"

text \<open>The markup written into the button for a status (the \<^verbatim>\<open>if\<close> chain on \<^verbatim>\<open>routeData.status\<close>).\<close>

definition statusHTML :: "string \<Rightarrow> string" where
  "statusHTML st =
     (if st = ''ready'' then ''<i class=\"fas fa-check-circle me-1\"></i>Ready''
      else if st = ''arrived'' then ''<i class=\"fas fa-truck me-1\"></i>Arrived''
      else ''<i class=\"fas fa-times-circle me-1\"></i>Not Present'')"

definition newClass :: "routeData \<Rightarrow> string" where
  "newClass routeData = ''status-button btn btn-'' @ status_color routeData"

text \<open>
  The body of \<^verbatim>\<open>if (statusButton) { ... }\<close> in \<^verbatim>\<open>updateRouteData\<close>: the button is
  rewritten when its class string differs from the new one. The result says whether it was.
\<close>

definition patchButton :: "routeData \<Rightarrow> button \<Rightarrow> bool \<times> button" where
  "patchButton routeData b =
     (if className b \<noteq> newClass routeData
      then (True, b\<lparr>className := newClass routeData,
                    currentStatus := Some (status routeData),
                    innerHTML := statusHTML (status routeData)\<rparr>)
      else (False, b))"

text \<open>One iteration of the \<^verbatim>\<open>for\<close> loop of \<^verbatim>\<open>updateRouteData\<close>, on \<open>(hasChanges, document)\<close>.\<close>

definition updateEntry :: "string \<times> routeData \<Rightarrow> bool \<times> node list \<Rightarrow> bool \<times> node list" where
  "updateEntry e acc =
     (case findRow (fst e) (snd acc) of
        None \<Rightarrow> acc
      | Some (i, row) \<Rightarrow>
          (case statusButton row of
             None \<Rightarrow> acc
           | Some b \<Rightarrow>
               (let (changed, b') = patchButton (snd e) b
                in if changed
                   then (True, (snd acc)[i := Row (row\<lparr>statusButton := Some b'\<rparr>)])
                   else acc)))"

fun updateLoop :: "(string \<times> routeData) list \<Rightarrow> bool \<times> node list \<Rightarrow> bool \<times> node list" where
  "updateLoop [] acc = acc"
| "updateLoop (e # es) acc = updateLoop es (updateEntry e acc)"

text \<open>
  The closed form of the loop, used to reason about it: every row receives, in order, the
  entries whose identifier is among its inputs, and an entry is consumed by the first item
  of the document that matches it.
\<close>

definition patch :: "routeData \<Rightarrow> button \<Rightarrow> button" where
  "patch d b = snd (patchButton d b)"

fun settled :: "(string \<times> routeData) list \<Rightarrow> node list \<Rightarrow> node list" where
  "settled es [] = []"
| "settled es (Loose x # ns) = Loose x # settled (filter (\<lambda>e. fst e \<noteq> x) es) ns"
| "settled es (Row r # ns) =
     Row (r\<lparr>statusButton :=
              map_option (fold (\<lambda>e. patch (snd e)) (filter (\<lambda>e. fst e \<in> set (inputs r)) es))
                (statusButton r)\<rparr>)
     # settled (filter (\<lambda>e. fst e \<notin> set (inputs r)) es) ns"

section \<open>The \<^verbatim>\<open>RealTimeUpdater\<close> and the browser around it\<close>

text \<open>
  The fields of a \<^verbatim>\<open>RealTimeUpdater\<close> object. \<^verbatim>\<open>lastUpdate\<close> is a number or, once a
  payload without a \<^verbatim>\<open>timestamp\<close> was stored, \<^verbatim>\<open>undefined\<close> (\<open>None\<close>); \<^verbatim>\<open>pollTimer\<close> is
  \<^verbatim>\<open>null\<close> or a timer handle.
\<close>

record updater =
  currentPage :: string
  pollInterval :: nat
  lastUpdate :: "int option"
  pollTimer :: "nat option"
  isPolling :: bool

text \<open>
  The body of a sync response, typed as the interface gives it:
  \<^verbatim>\<open>{success, timestamp, routes_updated?, routes?, needs_refresh?}\<close>. A boolean field holds
  the truthiness of the JSON value (absent is false); an absent \<^verbatim>\<open>timestamp\<close> or \<^verbatim>\<open>routes\<close>
  is \<open>None\<close>, and \<^verbatim>\<open>Object.entries(routes)\<close> is the list of its entries.
\<close>

record payload =
  success :: bool
  timestamp :: "int option"
  routes_updated :: bool
  routes :: "(string \<times> routeData) list option"
  needs_refresh :: bool

text \<open>
  How the \<^verbatim>\<open>fetch\<close> of a poll settles: the promise rejects, the response is not
  \<^verbatim>\<open>ok\<close>, \<^verbatim>\<open>response.json()\<close> rejects, or a payload arrives.
\<close>

datatype response = FetchRejected | NotOk | JsonRejected | Json payload

text \<open>
  How the \<^verbatim>\<open>fetch(window.location.href)\<close> of a content refresh settles; the rows are
  those of \<^verbatim>\<open>doc.querySelector('table tbody')\<close> in the fetched page, if it has one.
\<close>

datatype content = ContentRejected | ContentNotOk | ContentHtml "tr list option"

text \<open>The element \<^verbatim>\<open>#connection-indicator\<close>.\<close>

record indicator =
  ind_className :: string
  ind_icon :: string
  ind_text :: string
  ind_display :: string

text \<open>
  The page around the updater: the document (\<open>nodes\<close>; \<open>tbody\<close> gives the offset and
  length of the rows of the first table body, if the page has one), the connection
  indicator, the console, the number of \<^verbatim>\<open>window.location.reload\<close> calls, the clock
  \<^verbatim>\<open>Date.now()\<close>, the integer stored under \<^verbatim>\<open>lastUserAction\<close> in \<^verbatim>\<open>localStorage\<close>, and
  what is pending: the poll requests sent (page and cursor of each) and how many of them
  are in flight, the poll timers (handle and delay), the indicator's hide timers, the
  content fetches in flight and the scheduled table swaps.
\<close>

record window =
  self :: updater
  nodes :: "node list"
  tbody :: "(nat \<times> nat) option"
  tbodyOpacity :: string
  connection :: "indicator option"
  console :: "string list"
  reloads :: nat
  now :: int
  lastUserAction :: "int option"
  requests :: "(string \<times> int option) list"
  inflight :: nat
  timers :: "(nat \<times> nat) list"
  nextTimer :: nat
  hideTimers :: nat
  contentFetches :: "string list"
  swaps :: "(string \<times> tr list) list"

fun str_includes :: "string \<Rightarrow> string \<Rightarrow> bool" where
  "str_includes [] sub = (sub = [])"
| "str_includes (c # cs) sub = (take (length sub) (c # cs) = sub \<or> str_includes cs sub)"

definition getCurrentPage :: "string \<Rightarrow> string" where
  "getCurrentPage path =
     (if str_includes path ''/routes'' then ''routes''
      else if str_includes path ''/dashboard'' then ''dashboard''
      else if str_includes path ''/students'' then ''students''
      else if str_includes path ''/staff'' then ''staff''
      else if str_includes path ''/schools'' then ''schools''
      else ''general'')"

definition log :: "string \<Rightarrow> window \<Rightarrow> window" where
  "log msg w = w\<lparr>console := console w @ [msg]\<rparr>"

text \<open>\<^verbatim>\<open>isUserAction\<close>: the answer, and the page with the line it logs.\<close>

definition isUserAction :: "window \<Rightarrow> bool \<times> window" where
  "isUserAction w =
     (let lastAction = (case lastUserAction w of None \<Rightarrow> 0 | Some t \<Rightarrow> t);
          isRecent = (now w - lastAction < 10000)
      in (isRecent,
          if isRecent then log ''Recent user action detected, skipping notifications'' w else w))"

definition updateRouteData :: "(string \<times> routeData) list \<Rightarrow> window \<Rightarrow> window" where
  "updateRouteData rs w =
     (let (hasChanges, ns) = updateLoop rs (False, nodes w);
          w1 = w\<lparr>nodes := ns\<rparr>
      in if hasChanges
         then (let (recent, w2) = isUserAction w1
               in if \<not> recent
                  then log ''Routes updated from another device - changes detected'' w2
                  else w2)
         else w1)"

text \<open>
  The two content refreshes are \<^verbatim>\<open>async\<close>: the first function is the part that runs at
  the call (the \<^verbatim>\<open>fetch\<close> is sent), the \<open>_settled\<close> one the part that runs when the
  fetch settles. A rejection is caught, logged and answered with a page reload; a page
  with both table bodies fades and schedules the swap 200 ms later.
\<close>

definition updateRoutesContent :: "window \<Rightarrow> window" where
  "updateRoutesContent w = w\<lparr>contentFetches := contentFetches w @ [''routes'']\<rparr>"

definition updateStudentsContent :: "window \<Rightarrow> window" where
  "updateStudentsContent w = w\<lparr>contentFetches := contentFetches w @ [''students'']\<rparr>"

definition fadeAndSchedule :: "string \<Rightarrow> tr list option \<Rightarrow> window \<Rightarrow> window" where
  "fadeAndSchedule kind newTableBody w =
     (case newTableBody of
        None \<Rightarrow> w
      | Some rows \<Rightarrow>
          (case tbody w of
             None \<Rightarrow> w
           | Some cur \<Rightarrow> w\<lparr>tbodyOpacity := ''0.5'', swaps := swaps w @ [(kind, rows)]\<rparr>))"

definition updateRoutesContent_settled :: "content \<Rightarrow> window \<Rightarrow> window" where
  "updateRoutesContent_settled c w =
     (case c of
        ContentRejected \<Rightarrow>
          (log ''Error updating routes content'' w)\<lparr>reloads := Suc (reloads w)\<rparr>
      | ContentNotOk \<Rightarrow> w
      | ContentHtml newTableBody \<Rightarrow> fadeAndSchedule ''routes'' newTableBody w)"

definition updateStudentsContent_settled :: "content \<Rightarrow> window \<Rightarrow> window" where
  "updateStudentsContent_settled c w =
     (case c of
        ContentRejected \<Rightarrow>
          (log ''Error updating students content'' w)\<lparr>reloads := Suc (reloads w)\<rparr>
      | ContentNotOk \<Rightarrow> w
      | ContentHtml newTableBody \<Rightarrow> fadeAndSchedule ''students'' newTableBody w)"

text \<open>
  The 200 ms callback: the children of the live table body are replaced by clones of
  the fetched rows and the opacity is restored. (The listeners it re-attaches are not part
  of the model.)
\<close>

definition swapTableBody :: "tr list \<Rightarrow> window \<Rightarrow> window" where
  "swapTableBody rows w =
     (case tbody w of
        None \<Rightarrow> w
      | Some (a, n) \<Rightarrow>
          w\<lparr>nodes := take a (nodes w) @ map Row rows @ drop (a + n) (nodes w),
            tbody := Some (a, length rows),
            tbodyOpacity := ''1''\<rparr>)"

definition refreshRoutesPage :: "window \<Rightarrow> window" where
  "refreshRoutesPage w = updateRoutesContent w"

definition refreshStudentsPage :: "window \<Rightarrow> window" where
  "refreshStudentsPage w =
     (let (recent, w1) = isUserAction w
      in if \<not> recent then updateStudentsContent w1 else w1)"

definition handleSyncData :: "payload \<Rightarrow> window \<Rightarrow> window" where
  "handleSyncData d w =
     (if currentPage (self w) = ''routes'' \<and> routes_updated d
      then (log ''Route status changes detected from other devices - refreshing page'' w)
             \<lparr>reloads := Suc (reloads w)\<rparr>
      else if currentPage (self w) = ''routes'' \<and> routes d \<noteq> None
      then (let w1 = updateRouteData (the (routes d)) w
            in if needs_refresh d then refreshRoutesPage w1 else w1)
      else if currentPage (self w) = ''students'' \<and> needs_refresh d
      then refreshStudentsPage w
      else w)"

text \<open>
  \<^verbatim>\<open>showConnectionStatus\<close>: the indicator is created when the page has none; the
  \<^verbatim>\<open>connected\<close> case also starts the 3 s timer that hides it.
\<close>

definition newIndicator :: indicator where
  "newIndicator =
     \<lparr>ind_className = ''position-fixed top-0 end-0 m-3 p-2 rounded shadow-sm'',
      ind_icon = [], ind_text = [], ind_display = []\<rparr>"

definition showConnectionStatus :: "string \<Rightarrow> window \<Rightarrow> window" where
  "showConnectionStatus st w =
     (let ind = (case connection w of None \<Rightarrow> newIndicator | Some i \<Rightarrow> i)
      in if st = ''connected''
         then w\<lparr>connection := Some (ind\<lparr>
                  ind_className := ''position-fixed top-0 end-0 m-3 p-2 rounded shadow-sm bg-success text-white'',
                  ind_icon := ''fas fa-wifi me-1'', ind_text := ''Connected''\<rparr>),
                hideTimers := Suc (hideTimers w)\<rparr>
         else if st = ''disconnected''
         then w\<lparr>connection := Some (ind\<lparr>
                  ind_className := ''position-fixed top-0 end-0 m-3 p-2 rounded shadow-sm bg-warning text-dark'',
                  ind_icon := ''fas fa-wifi me-1'', ind_text := ''Reconnecting...'',
                  ind_display := ''block''\<rparr>)\<rparr>
         else if st = ''failed''
         then w\<lparr>connection := Some (ind\<lparr>
                  ind_className := ''position-fixed top-0 end-0 m-3 p-2 rounded shadow-sm bg-danger text-white'',
                  ind_icon := ''fas fa-exclamation-triangle me-1'', ind_text := ''Connection Failed'',
                  ind_display := ''block''\<rparr>)\<rparr>
         else w\<lparr>connection := Some ind\<rparr>)"

text \<open>
  \<^verbatim>\<open>poll\<close> is \<^verbatim>\<open>async\<close>. \<open>poll\<close> is the part that runs at the call, up to the
  \<^verbatim>\<open>await fetch(...)\<close>: nothing when polling is off, otherwise the request goes out with the
  current cursor. \<open>poll_settled\<close> is the rest, run when the fetch settles: the \<^verbatim>\<open>try\<close>
  block (\<open>tryBlock\<close>, whose \<open>Inl\<close> is the exception thrown in it), the \<^verbatim>\<open>catch\<close> handler,
  and the scheduling of the next poll. Between the two \<^verbatim>\<open>await\<close>s of the \<^verbatim>\<open>try\<close> block
  nothing of the page or of the updater is read or written, so the tick settles in one
  step, at the moment the body has been read. \<^verbatim>\<open>setTimeout\<close> returns a fresh positive
  handle, so the truthiness test of \<^verbatim>\<open>stopPolling\<close> on \<^verbatim>\<open>pollTimer\<close> is the test for
  \<^verbatim>\<open>null\<close>.
\<close>

definition poll :: "window \<Rightarrow> window" where
  "poll w =
     (if \<not> isPolling (self w) then w
      else w\<lparr>requests := requests w @ [(currentPage (self w), lastUpdate (self w))],
             inflight := Suc (inflight w)\<rparr>)"

definition tryBlock :: "response \<Rightarrow> window \<Rightarrow> string + window" where
  "tryBlock r w =
     (case r of
        FetchRejected \<Rightarrow> Inl ''TypeError: Failed to fetch''
      | NotOk \<Rightarrow> Inr w
      | JsonRejected \<Rightarrow> Inl ''SyntaxError: Unexpected token''
      | Json d \<Rightarrow>
          (if success d
           then (let w1 = handleSyncData d w
                 in Inr (w1\<lparr>self := (self w1)\<lparr>lastUpdate := timestamp d\<rparr>\<rparr>))
           else Inr w))"

definition scheduleNext :: "window \<Rightarrow> window" where
  "scheduleNext w =
     (if isPolling (self w)
      then w\<lparr>self := (self w)\<lparr>pollTimer := Some (nextTimer w)\<rparr>,
             timers := timers w @ [(nextTimer w, pollInterval (self w))],
             nextTimer := Suc (nextTimer w)\<rparr>
      else w)"

definition poll_settled :: "response \<Rightarrow> window \<Rightarrow> window" where
  "poll_settled r w =
     scheduleNext
       (case tryBlock r w of
          Inl error \<Rightarrow> showConnectionStatus ''disconnected'' (log (''Polling error: '' @ error) w)
        | Inr w1 \<Rightarrow> w1)"

definition startPolling :: "window \<Rightarrow> window" where
  "startPolling w =
     (if isPolling (self w) then w
      else showConnectionStatus ''connected'' (poll (w\<lparr>self := (self w)\<lparr>isPolling := True\<rparr>\<rparr>)))"

definition stopPolling :: "window \<Rightarrow> window" where
  "stopPolling w =
     (let w1 = w\<lparr>self := (self w)\<lparr>isPolling := False\<rparr>\<rparr>
      in case pollTimer (self w1) of
           None \<Rightarrow> w1
         | Some t \<Rightarrow> w1\<lparr>timers := filter (\<lambda>p. fst p \<noteq> t) (timers w1),
                         self := (self w1)\<lparr>pollTimer := None\<rparr>\<rparr>)"

definition init :: "window \<Rightarrow> window" where
  "init w =
     (if currentPage (self w) = ''routes''
      then startPolling (log ''Real-time sync enabled for Transport Check-in page'' w)
      else stopPolling
             (log (''Real-time sync disabled for '' @ currentPage (self w) @ '' - manual refresh required'') w))"

text \<open>
  The constructor, on a freshly loaded page: path of the location, document, table
  body and clock. Timer handles start at 1.
\<close>

definition new_RealTimeUpdater :: "string \<Rightarrow> node list \<Rightarrow> (nat \<times> nat) option \<Rightarrow> int \<Rightarrow> window" where
  "new_RealTimeUpdater path doc tb t0 =
     init \<lparr>self = \<lparr>currentPage = getCurrentPage path, pollInterval = 5000, lastUpdate = Some 0,
                   pollTimer = None, isPolling = False\<rparr>,
           nodes = doc, tbody = tb, tbodyOpacity = [], connection = None, console = [],
           reloads = 0, now = t0, lastUserAction = None, requests = [], inflight = 0,
           timers = [], nextTimer = 1, hideTimers = 0, contentFetches = [], swaps = []\<rparr>"

text \<open>
  What can happen to the page, one event at a time (the browser runs one callback to its
  end before the next): a call of \<^verbatim>\<open>startPolling\<close> or \<^verbatim>\<open>stopPolling\<close>, a pending poll
  timer firing, a poll fetch in flight settling, the indicator's hide timer firing, the
  \<open>i\<close>-th content fetch in flight settling, the oldest scheduled swap running, the clock
  advancing, and a user action recorded in \<^verbatim>\<open>localStorage\<close>. An event that is not enabled
  (a timer that is not pending, a settlement with nothing in flight) changes nothing.
\<close>

datatype event =
    Start
  | Stop
  | TimerFires nat
  | FetchSettles response
  | HideFires
  | ContentSettles nat content
  | SwapFires
  | Elapse nat
  | UserActs

definition step :: "event \<Rightarrow> window \<Rightarrow> window" where
  "step e w =
     (case e of
        Start \<Rightarrow> startPolling w
      | Stop \<Rightarrow> stopPolling w
      | TimerFires t \<Rightarrow>
          (if t \<in> fst ` set (timers w)
           then poll (w\<lparr>timers := filter (\<lambda>p. fst p \<noteq> t) (timers w)\<rparr>)
           else w)
      | FetchSettles r \<Rightarrow>
          (if inflight w = 0 then w else poll_settled r (w\<lparr>inflight := inflight w - 1\<rparr>))
      | HideFires \<Rightarrow>
          (if hideTimers w = 0 then w
           else w\<lparr>hideTimers := hideTimers w - 1,
                  connection := map_option (\<lambda>i. i\<lparr>ind_display := ''none''\<rparr>) (connection w)\<rparr>)
      | ContentSettles i c \<Rightarrow>
          (if i < length (contentFetches w)
           then (let kind = contentFetches w ! i;
                     w1 = w\<lparr>contentFetches := take i (contentFetches w) @ drop (Suc i) (contentFetches w)\<rparr>
                 in if kind = ''routes'' then updateRoutesContent_settled c w1
                    else updateStudentsContent_settled c w1)
           else w)
      | SwapFires \<Rightarrow>
          (case swaps w of
             [] \<Rightarrow> w
           | (kind, rows) # rest \<Rightarrow> swapTableBody rows (w\<lparr>swaps := rest\<rparr>))
      | Elapse ms \<Rightarrow> w\<lparr>now := now w + int ms\<rparr>
      | UserActs \<Rightarrow> w\<lparr>lastUserAction := Some (now w)\<rparr>)"

primrec run :: "event list \<Rightarrow> window \<Rightarrow> window" where
  "run [] w = w"
| "run (e # es) w = run es (step e w)"

text \<open>
  The cursor after each event of a run, and the timestamps of the successful payloads
  among the events.
\<close>

primrec cursors :: "event list \<Rightarrow> window \<Rightarrow> int option list" where
  "cursors [] w = []"
| "cursors (e # es) w = lastUpdate (self (step e w)) # cursors es (step e w)"

fun stamps :: "event list \<Rightarrow> int option list" where
  "stamps [] = []"
| "stamps (FetchSettles (Json d) # es) = (if success d then timestamp d # stamps es else stamps es)"
| "stamps (e # es) = stamps es"

section \<open>ChangeGuard\<close>

text \<open>
  Modelled from the spec: \<^verbatim>\<open>cycleRouteStatus\<close> calls \<^verbatim>\<open>trackUserUpdate(routeId)\<close> when
  that function is defined, and the sources at hand do not define it. Following section
  4.2 of the specification, \<open>markChanged\<close> sets \<open>guarded_until = now + GUARD_WINDOW\<close>
  for the route, replacing an earlier entry. The guard window is a parameter.
\<close>

definition markChanged :: "int \<Rightarrow> string \<Rightarrow> int \<Rightarrow> (string \<rightharpoonup> int) \<Rightarrow> (string \<rightharpoonup> int)" where
  "markChanged guard_window route_id t g = g(route_id \<mapsto> t + guard_window)"


section \<open>\<^verbatim>\<open>cycleRouteStatus\<close> on one status button\<close>

text \<open>
  \<^verbatim>\<open>classList.add\<close> and \<^verbatim>\<open>classList.remove\<close> on a class string: the string is split at
  ASCII whitespace into its ordered set of tokens, and the updated set is written back
  joined by single spaces.
\<close>

definition isSpace :: "char \<Rightarrow> bool" where
  "isSpace c = (c = CHR '' '' \<or> c = CHR 0x09 \<or> c = CHR 0x0A \<or> c = CHR 0x0C \<or> c = CHR 0x0D)"

fun tokens :: "string \<Rightarrow> string \<Rightarrow> string list" where
  "tokens cur [] = (if cur = [] then [] else [cur])"
| "tokens cur (c # cs) =
     (if isSpace c then (if cur = [] then tokens [] cs else cur # tokens [] cs)
      else tokens (cur @ [c]) cs)"

definition classList :: "string \<Rightarrow> string list" where
  "classList s = rev (remdups (rev (tokens [] s)))"

fun serialize :: "string list \<Rightarrow> string" where
  "serialize [] = []"
| "serialize [t] = t"
| "serialize (t # ts) = t @ '' '' @ serialize ts"

definition classList_add :: "string \<Rightarrow> string \<Rightarrow> string" where
  "classList_add tok s =
     (let ts = classList s in serialize (if tok \<in> set ts then ts else ts @ [tok]))"

definition classList_remove :: "string \<Rightarrow> string \<Rightarrow> string" where
  "classList_remove tok s = serialize (filter (\<lambda>t. t \<noteq> tok) (classList s))"

text \<open>The later pair of \<^verbatim>\<open>showLoadingState\<close> and \<^verbatim>\<open>hideLoadingState\<close> in main.js (the
  declarations in force), applied to the button.\<close>

definition showLoadingState :: "button \<Rightarrow> button" where
  "showLoadingState element =
     element\<lparr>className := classList_add ''loading'' (className element), disabled := True\<rparr>"

definition hideLoadingState :: "button \<Rightarrow> button" where
  "hideLoadingState element =
     element\<lparr>className := classList_remove ''loading'' (className element), disabled := False\<rparr>"

text \<open>The answer of \<^verbatim>\<open>POST /routes/{id}/cycle-status\<close>, and how the request settles: the
  fetch or \<^verbatim>\<open>response.json()\<close> rejects, or the answer arrives.\<close>

record reply =
  reply_success :: bool
  reply_status :: string
  reply_message :: "string option"

datatype post_outcome = PostRejected | PostJson reply

text \<open>
  One status button and what \<^verbatim>\<open>cycleRouteStatus\<close> touches besides it: the integer
  stored under \<^verbatim>\<open>lastUserAction\<close>, whether \<^verbatim>\<open>trackUserUpdate\<close> is defined (\<open>Some\<close> of its
  guard window) and the guard entries it keeps, the cycle-status requests in flight for
  this button (the route of each), the delays of the pending re-enable timers, the
  console and the clock. The audio chime and the toast of the success handler are
  outside the model.
\<close>

record clickPage =
  btn :: button
  storedAction :: "int option"
  trackUserUpdate :: "int option"
  guard :: "string \<rightharpoonup> int"
  posts :: "string list"
  reenables :: "nat list"
  clicklog :: "string list"
  clock :: int

text \<open>
  \<^verbatim>\<open>cycleRouteStatus(routeId, button)\<close> up to the \<^verbatim>\<open>fetch\<close>. A click on a button that is
  disabled or marked as processing only logs. Otherwise the button is marked and
  disabled, the change is tracked, \<^verbatim>\<open>lastUserAction\<close> is stored, the loading state is
  shown and the request is sent. (The \<^verbatim>\<open>newStatus\<close> that the \<^verbatim>\<open>switch\<close> computes is not
  read again; the request carries only the CSRF token.)
\<close>

definition cycleRouteStatus :: "string \<Rightarrow> clickPage \<Rightarrow> clickPage" where
  "cycleRouteStatus routeId p =
     (if disabled (btn p) \<or> processing (btn p) = Some ''true''
      then p\<lparr>clicklog := clicklog p @ [''Button click ignored - already processing'']\<rparr>
      else (let button = (btn p)\<lparr>processing := Some ''true'', disabled := True\<rparr>;
                g = (case trackUserUpdate p of
                       None \<Rightarrow> guard p
                     | Some guard_window \<Rightarrow> markChanged guard_window routeId (clock p) (guard p))
            in p\<lparr>btn := showLoadingState button,
                 guard := g,
                 storedAction := Some (clock p),
                 posts := posts p @ [routeId]\<rparr>))"

text \<open>The handlers chained on the request: \<^verbatim>\<open>then\<close> or \<^verbatim>\<open>catch\<close>, and \<^verbatim>\<open>finally\<close>, which
  starts the 300 ms timer of the re-enabling callback.\<close>

definition statusClass :: "string \<Rightarrow> string" where
  "statusClass st =
     ''status-button btn btn-''
       @ (if st = ''ready'' then ''success'' else if st = ''arrived'' then ''warning'' else ''danger'')"

definition cycleRouteStatus_settled :: "post_outcome \<Rightarrow> clickPage \<Rightarrow> clickPage" where
  "cycleRouteStatus_settled outcome p =
     (let p1 =
        (case outcome of
           PostRejected \<Rightarrow>
             p\<lparr>btn := hideLoadingState (btn p),
               clicklog := clicklog p @ [''Error updating route status:'']\<rparr>
         | PostJson data \<Rightarrow>
             (let button = hideLoadingState (btn p)
              in if reply_success data
                 then p\<lparr>btn := button\<lparr>currentStatus := Some (reply_status data),
                                      className := statusClass (reply_status data),
                                      innerHTML := statusHTML (reply_status data)\<rparr>\<rparr>
                 else p\<lparr>btn := button\<rparr>))
      in p1\<lparr>reenables := reenables p1 @ [300]\<rparr>)"

definition reenable :: "clickPage \<Rightarrow> clickPage" where
  "reenable p = p\<lparr>btn := (btn p)\<lparr>processing := Some ''false'', disabled := False\<rparr>\<rparr>"

text \<open>
  The events on the button: a click for a route, the \<open>i\<close>-th request in flight
  settling, the oldest re-enable timer firing, a sync entry for the button's row being
  applied by \<^verbatim>\<open>updateRouteData\<close>, and the clock advancing.
\<close>

datatype click_event =
    Click string
  | PostSettles nat post_outcome
  | ReenableFires
  | SyncPatch routeData
  | Tick nat

definition click_step :: "click_event \<Rightarrow> clickPage \<Rightarrow> clickPage" where
  "click_step e p =
     (case e of
        Click routeId \<Rightarrow> cycleRouteStatus routeId p
      | PostSettles i outcome \<Rightarrow>
          (if i < length (posts p)
           then cycleRouteStatus_settled outcome
                  (p\<lparr>posts := take i (posts p) @ drop (Suc i) (posts p)\<rparr>)
           else p)
      | ReenableFires \<Rightarrow>
          (case reenables p of [] \<Rightarrow> p | ms # rest \<Rightarrow> reenable (p\<lparr>reenables := rest\<rparr>))
      | SyncPatch d \<Rightarrow> p\<lparr>btn := patch d (btn p)\<rparr>
      | Tick ms \<Rightarrow> p\<lparr>clock := clock p + int ms\<rparr>)"

primrec click_run :: "click_event list \<Rightarrow> clickPage \<Rightarrow> clickPage" where
  "click_run [] p = p"
| "click_run (e # es) p = click_run es (click_step e p)"

text \<open>
  A single polling chain: with polling on, at most one poll is pending, as a fetch in
  flight or as a scheduled timer; with polling off, none is.
\<close>

definition oneChain :: "window \<Rightarrow> bool" where
  "oneChain w = (inflight w + length (timers w) \<le> (if isPolling (self w) then 1 else 0))"

text \<open>
  At most one request or re-enable timer is pending for the button, and while one is the
  button carries the processing mark.
\<close>

definition oneRequest :: "clickPage \<Rightarrow> bool" where
  "oneRequest p =
     (length (posts p) + length (reenables p) \<le> 1
      \<and> (posts p = [] \<and> reenables p = [] \<or> processing (btn p) = Some ''true''))"

section \<open>A click seen from the page of the updater\<close>


section \<open>The cycle-status endpoint\<close>

text \<open>
  Modelled from the spec: the status of a route as the StatusStore holds it. The store
  and the endpoint that writes it are served by code that is not among the sources; only
  the caller \<^verbatim>\<open>cycleRouteStatus\<close> is. Section 3 of the specification gives the status as
  the enumeration \<open>not_present\<close>, \<open>arrived\<close>, \<open>ready\<close>.
\<close>

datatype route_status = NotPresent | Arrived | Ready

text \<open>
  Modelled from the spec: one step of the status, which the sources do not contain.
  Section 3: the status forms a strict 3-cycle with no other transitions,
  \<open>not_present \<rightarrow> arrived \<rightarrow> ready \<rightarrow> not_present\<close>.
\<close>

fun advance :: "route_status \<Rightarrow> route_status" where
  "advance NotPresent = Arrived"
| "advance Arrived = Ready"
| "advance Ready = NotPresent"

text \<open>
  Modelled from the spec: the name under which a status travels in the answer, which
  the absent endpoint produces; they are the names of the enumeration of section 3, and
  the ones the success handler of \<^verbatim>\<open>cycleRouteStatus\<close> compares \<^verbatim>\<open>data.status\<close> with.
\<close>

fun statusName :: "route_status \<Rightarrow> string" where
  "statusName NotPresent = ''not_present''"
| "statusName Arrived = ''arrived''"
| "statusName Ready = ''ready''"





section \<open>A concrete page\<close>

text \<open>
  The check-in page used in the examples: one row for route 7, whose status button
  shows Not Present, loaded at \<^verbatim>\<open>/routes\<close> at time 1000; the button as the click handling
  sees it, with \<^verbatim>\<open>trackUserUpdate\<close> undefined as in the sources; a delta that sets route 7
  to Ready, and a poll payload that carries it.
\<close>

definition notPresentButton :: button where
  "notPresentButton =
     \<lparr>className = ''status-button btn btn-danger'', currentStatus = Some ''not_present'',
      innerHTML = statusHTML ''not_present'', disabled = False, processing = None\<rparr>"

definition routesPage :: window where
  "routesPage =
     new_RealTimeUpdater ''/routes'' [Row \<lparr>inputs = [''7''], statusButton = Some notPresentButton\<rparr>]
       (Some (0, 1)) 1000"

definition buttonPage :: clickPage where
  "buttonPage =
     \<lparr>btn = notPresentButton, storedAction = None, trackUserUpdate = None, guard = Map.empty,
      posts = [], reenables = [], clicklog = [], clock = 1000\<rparr>"

definition readyDelta :: "(string \<times> routeData) list" where
  "readyDelta = [(''7'', \<lparr>status = ''ready'', status_color = ''success''\<rparr>)]"


section \<open>Applying a status delta to the page\<close>

lemma entry_Nil: "snd (updateEntry e (h, [])) = []"
  by (simp add: updateEntry_def)

lemma entry_Loose:
  "snd (updateEntry e (h, Loose x # ns)) =
     (if x = fst e then Loose x # ns else Loose x # snd (updateEntry e (h, ns)))"
  by (auto simp: updateEntry_def split: option.splits prod.splits)

lemma entry_Row:
  "snd (updateEntry e (h, Row r # ns)) =
     (if fst e \<in> set (inputs r)
      then Row (r\<lparr>statusButton := map_option (patch (snd e)) (statusButton r)\<rparr>) # ns
      else Row r # snd (updateEntry e (h, ns)))"
  by (auto simp: updateEntry_def patch_def patchButton_def split: option.splits prod.splits)

lemma settled_step: "settled (e # es) ns = settled es (snd (updateEntry e (h, ns)))"
proof (induction ns arbitrary: es)
  case Nil
  show ?case by (simp add: entry_Nil)
next
  case (Cons n ns)
  show ?case
  proof (cases n)
    case (Loose x)
    then show ?thesis using Cons.IH by (simp add: entry_Loose)
  next
    case (Row r)
    then show ?thesis using Cons.IH by (simp add: entry_Row option.map_comp comp_def)
  qed
qed

lemma settled_Nil: "settled [] ns = ns"
proof (induction ns)
  case Nil show ?case by simp
next
  case (Cons n ns)
  then show ?case by (cases n) (simp_all add: option.map_id)
qed

lemma updateLoop_settled: "snd (updateLoop es (h, ns)) = settled es ns"
proof (induction es arbitrary: h ns)
  case Nil
  show ?case by (simp add: settled_Nil)
next
  case (Cons e es)
  obtain h' ns' where u: "updateEntry e (h, ns) = (h', ns')" by (cases "updateEntry e (h, ns)")
  have "settled (e # es) ns = settled es ns'"
    using settled_step [of e es ns h] u by simp
  then show ?case using Cons.IH [of h' ns'] u by simp
qed

lemma patch_className: "className (patch d b) = newClass d"
  by (simp add: patch_def patchButton_def)

lemma patch_same: "className b = newClass d \<Longrightarrow> patch d b = b"
  by (simp add: patch_def patchButton_def)

lemma patch_flags: "disabled (patch d b) = disabled b \<and> processing (patch d b) = processing b"
  by (simp add: patch_def patchButton_def)

lemma patch_overwrites:
  "className x \<noteq> newClass d \<Longrightarrow> className y \<noteq> newClass d \<Longrightarrow> disabled x = disabled y
     \<Longrightarrow> processing x = processing y \<Longrightarrow> patch d x = patch d y"
  by (simp add: patch_def patchButton_def)

lemma patches_flags:
  "disabled (fold (\<lambda>e. patch (snd e)) es b) = disabled b
     \<and> processing (fold (\<lambda>e. patch (snd e)) es b) = processing b"
  by (induction es arbitrary: b) (simp_all add: patch_flags)

lemma patches_merge:
  "className x = className y \<Longrightarrow> disabled x = disabled y \<Longrightarrow> processing x = processing y
     \<Longrightarrow> fold (\<lambda>e. patch (snd e)) es x = fold (\<lambda>e. patch (snd e)) es y
         \<or> (fold (\<lambda>e. patch (snd e)) es x = x \<and> fold (\<lambda>e. patch (snd e)) es y = y)"
proof (induction es arbitrary: x y)
  case Nil
  show ?case by simp
next
  case (Cons e es)
  let ?f = "\<lambda>e. patch (snd e)"
  show ?case
  proof (cases "className x = newClass (snd e)")
    case True
    have px: "patch (snd e) x = x" by (rule patch_same [OF True])
    have cy: "className y = newClass (snd e)" using True Cons.prems(1) by simp
    have py: "patch (snd e) y = y" by (rule patch_same [OF cy])
    have sx: "fold ?f (e # es) x = fold ?f es x" by (simp add: px)
    have sy: "fold ?f (e # es) y = fold ?f es y" by (simp add: py)
    show ?thesis unfolding sx sy by (rule Cons.IH [OF Cons.prems])
  next
    case False
    have cy: "className y \<noteq> newClass (snd e)" using False Cons.prems(1) by simp
    have "patch (snd e) x = patch (snd e) y"
      by (rule patch_overwrites [OF False cy Cons.prems(2) Cons.prems(3)])
    then have "fold ?f (e # es) x = fold ?f (e # es) y" by simp
    then show ?thesis by (rule disjI1)
  qed
qed

lemma patches_idem:
  "fold (\<lambda>e. patch (snd e)) es (fold (\<lambda>e. patch (snd e)) es b) = fold (\<lambda>e. patch (snd e)) es b"
proof (induction es arbitrary: b)
  case Nil
  show ?case by simp
next
  case (Cons e es)
  let ?F = "fold (\<lambda>e. patch (snd e)) es"
  let ?c = "patch (snd e) b"
  let ?z = "?F ?c"
  have goal: "?F (patch (snd e) ?z) = ?z"
  proof (cases "className ?z = newClass (snd e)")
    case True
    then show ?thesis using Cons.IH [of ?c] by (simp add: patch_same)
  next
    case False
    have cls: "className (patch (snd e) ?z) = className ?c"
      by (simp add: patch_className)
    have fl: "disabled (patch (snd e) ?z) = disabled ?c" "processing (patch (snd e) ?z) = processing ?c"
      using patches_flags [of es ?c] by (simp_all add: patch_flags)
    from patches_merge [OF cls fl, of es]
    show ?thesis
    proof
      assume "?F (patch (snd e) ?z) = ?F ?c"
      then show ?thesis .
    next
      assume "?F (patch (snd e) ?z) = patch (snd e) ?z \<and> ?F ?c = ?c"
      then have "className ?z = newClass (snd e)" by (simp add: patch_className)
      with False show ?thesis by simp
    qed
  qed
  then show ?case by simp
qed

lemma settled_idem: "settled es (settled es ns) = settled es ns"
proof (induction ns arbitrary: es)
  case Nil
  show ?case by simp
next
  case (Cons n ns)
  show ?case
  proof (cases n)
    case (Loose x)
    then show ?thesis using Cons.IH [of "filter (\<lambda>e. fst e \<noteq> x) es"] by simp
  next
    case (Row r)
    let ?F = "fold (\<lambda>e. patch (snd e)) (filter (\<lambda>e. fst e \<in> set (inputs r)) es)"
    have "map_option ?F (map_option ?F (statusButton r)) = map_option ?F (statusButton r)"
      by (cases "statusButton r") (simp_all add: patches_idem)
    then show ?thesis
      using Row Cons.IH [of "filter (\<lambda>e. fst e \<notin> set (inputs r)) es"] by simp
  qed
qed

lemma updateLoop_idem:
  "snd (updateLoop es (h', snd (updateLoop es (h, ns)))) = snd (updateLoop es (h, ns))"
  by (simp add: updateLoop_settled settled_idem)

lemma nodes_updateRouteData: "nodes (updateRouteData rs w) = snd (updateLoop rs (False, nodes w))"
  by (simp add: updateRouteData_def isUserAction_def log_def Let_def split: prod.splits)

lemma frame_updateRouteData:
  "tbody (updateRouteData rs w) = tbody w \<and> tbodyOpacity (updateRouteData rs w) = tbodyOpacity w
     \<and> connection (updateRouteData rs w) = connection w \<and> reloads (updateRouteData rs w) = reloads w
     \<and> self (updateRouteData rs w) = self w \<and> contentFetches (updateRouteData rs w) = contentFetches w
     \<and> swaps (updateRouteData rs w) = swaps w"
  by (simp add: updateRouteData_def isUserAction_def log_def Let_def split: prod.splits)

text \<open>
  Claim C9. Applying the same status delta a second time leaves the page as the first
  application left it: every row, with the class, the status and the markup of its
  status button, is the same before and after the second \<^verbatim>\<open>updateRouteData\<close>, and so are
  the table body, its opacity and the connection indicator.
\<close>

theorem updateRouteData_idempotent:
  "nodes (updateRouteData rs (updateRouteData rs w)) = nodes (updateRouteData rs w)
   \<and> tbody (updateRouteData rs (updateRouteData rs w)) = tbody (updateRouteData rs w)
   \<and> tbodyOpacity (updateRouteData rs (updateRouteData rs w)) = tbodyOpacity (updateRouteData rs w)
   \<and> connection (updateRouteData rs (updateRouteData rs w)) = connection (updateRouteData rs w)"
proof -
  have "nodes (updateRouteData rs (updateRouteData rs w))
          = snd (updateLoop rs (False, snd (updateLoop rs (False, nodes w))))"
    by (simp only: nodes_updateRouteData)
  also have "\<dots> = snd (updateLoop rs (False, nodes w))"
    by (rule updateLoop_idem)
  finally have "nodes (updateRouteData rs (updateRouteData rs w)) = nodes (updateRouteData rs w)"
    by (simp only: nodes_updateRouteData)
  then show ?thesis by (simp add: frame_updateRouteData)
qed

lemma routesPage_eval:
  "routesPage =
     \<lparr>self = \<lparr>currentPage = ''routes'', pollInterval = 5000, lastUpdate = Some 0,
              pollTimer = None, isPolling = True\<rparr>,
      nodes = [Row \<lparr>inputs = [''7''], statusButton = Some notPresentButton\<rparr>],
      tbody = Some (0, 1), tbodyOpacity = [],
      connection = Some \<lparr>ind_className = ''position-fixed top-0 end-0 m-3 p-2 rounded shadow-sm bg-success text-white'',
                          ind_icon = ''fas fa-wifi me-1'', ind_text = ''Connected'', ind_display = []\<rparr>,
      console = [''Real-time sync enabled for Transport Check-in page''],
      reloads = 0, now = 1000, lastUserAction = None, requests = [(''routes'', Some 0)], inflight = 1,
      timers = [], nextTimer = 1, hideTimers = 1, contentFetches = [], swaps = []\<rparr>"
  by (simp add: routesPage_def new_RealTimeUpdater_def init_def getCurrentPage_def startPolling_def
        poll_def showConnectionStatus_def newIndicator_def log_def)

theorem updateRouteData_idempotent_witness:
  "nodes (updateRouteData readyDelta (updateRouteData readyDelta routesPage))
     = [Row \<lparr>inputs = [''7''],
             statusButton = Some \<lparr>className = ''status-button btn btn-success'',
                                  currentStatus = Some ''ready'',
                                  innerHTML = statusHTML ''ready'',
                                  disabled = False, processing = None\<rparr>\<rparr>]"
proof -
  have once: "nodes (updateRouteData readyDelta routesPage)
     = [Row \<lparr>inputs = [''7''],
             statusButton = Some \<lparr>className = ''status-button btn btn-success'',
                                  currentStatus = Some ''ready'',
                                  innerHTML = statusHTML ''ready'',
                                  disabled = False, processing = None\<rparr>\<rparr>]"
    by (simp add: nodes_updateRouteData routesPage_eval readyDelta_def updateEntry_def
          patchButton_def newClass_def notPresentButton_def)
  show ?thesis
    using updateRouteData_idempotent [of readyDelta routesPage] once by simp
qed

section \<open>One poll tick\<close>

lemma self_updateRouteData: "self (updateRouteData rs w) = self w"
  by (simp add: updateRouteData_def isUserAction_def log_def Let_def split: prod.splits)

lemma self_handleSyncData: "self (handleSyncData d w) = self w"
  by (simp add: handleSyncData_def log_def self_updateRouteData refreshRoutesPage_def
        updateRoutesContent_def refreshStudentsPage_def updateStudentsContent_def
        isUserAction_def Let_def)

lemma pending_updateRouteData:
  "requests (updateRouteData rs w) = requests w \<and> inflight (updateRouteData rs w) = inflight w
     \<and> timers (updateRouteData rs w) = timers w \<and> nextTimer (updateRouteData rs w) = nextTimer w"
  by (simp add: updateRouteData_def isUserAction_def log_def Let_def split: prod.splits)

lemma pending_handleSyncData:
  "requests (handleSyncData d w) = requests w \<and> inflight (handleSyncData d w) = inflight w
     \<and> timers (handleSyncData d w) = timers w \<and> nextTimer (handleSyncData d w) = nextTimer w"
  by (simp add: handleSyncData_def log_def pending_updateRouteData refreshRoutesPage_def
        updateRoutesContent_def refreshStudentsPage_def updateStudentsContent_def
        isUserAction_def Let_def)

text \<open>
  Claim C4. When the fetch of a poll tick rejects, the exception raised in the \<^verbatim>\<open>try\<close>
  block is handled inside \<^verbatim>\<open>poll\<close>: the tick ends in an ordinary page state, with the
  error on the console and the indicator showing the disconnected state. The cursor
  keeps its value, nothing is reloaded or patched, and no request is sent in that tick;
  when polling is on, exactly one timer is added, for the unchanged \<^verbatim>\<open>pollInterval\<close>
  (the same scheduling as after any other tick), and it is the one \<^verbatim>\<open>pollTimer\<close> holds.
\<close>

theorem poll_network_failure:
  assumes "0 < inflight w"
  shows "tryBlock FetchRejected w = Inl ''TypeError: Failed to fetch''
    \<and> lastUpdate (self (step (FetchSettles FetchRejected) w)) = lastUpdate (self w)
    \<and> console (step (FetchSettles FetchRejected) w)
        = console w @ [''Polling error: TypeError: Failed to fetch'']
    \<and> map_option ind_text (connection (step (FetchSettles FetchRejected) w)) = Some ''Reconnecting...''
    \<and> map_option ind_display (connection (step (FetchSettles FetchRejected) w)) = Some ''block''
    \<and> nodes (step (FetchSettles FetchRejected) w) = nodes w
    \<and> reloads (step (FetchSettles FetchRejected) w) = reloads w
    \<and> requests (step (FetchSettles FetchRejected) w) = requests w
    \<and> inflight (step (FetchSettles FetchRejected) w) = inflight w - 1
    \<and> pollInterval (self (step (FetchSettles FetchRejected) w)) = pollInterval (self w)
    \<and> isPolling (self (step (FetchSettles FetchRejected) w)) = isPolling (self w)
    \<and> timers (step (FetchSettles FetchRejected) w)
        = (if isPolling (self w) then timers w @ [(nextTimer w, pollInterval (self w))] else timers w)
    \<and> pollTimer (self (step (FetchSettles FetchRejected) w))
        = (if isPolling (self w) then Some (nextTimer w) else pollTimer (self w))
    \<and> timers (step (FetchSettles FetchRejected) w) = timers (step (FetchSettles NotOk) w)"
  using assms
  by (simp add: step_def poll_settled_def tryBlock_def scheduleNext_def showConnectionStatus_def
        log_def Let_def)

lemma routesPage_fields:
  "inflight routesPage = 1" "isPolling (self routesPage)" "lastUpdate (self routesPage) = Some 0"
  "timers routesPage = []" "nextTimer routesPage = 1" "pollInterval (self routesPage) = 5000"
  "console routesPage = [''Real-time sync enabled for Transport Check-in page'']"
  "currentPage (self routesPage) = ''routes''" "reloads routesPage = 0"
  "requests routesPage = [(''routes'', Some 0)]" "pollTimer (self routesPage) = None"
  "nodes routesPage = [Row \<lparr>inputs = [''7''], statusButton = Some notPresentButton\<rparr>]"
  "contentFetches routesPage = []" "now routesPage = 1000" "lastUserAction routesPage = None"
  by (simp_all add: routesPage_eval)

theorem poll_network_failure_witness:
  "lastUpdate (self (step (FetchSettles FetchRejected) routesPage)) = Some 0
   \<and> timers (step (FetchSettles FetchRejected) routesPage) = [(1, 5000)]
   \<and> map_option ind_text (connection (step (FetchSettles FetchRejected) routesPage)) = Some ''Reconnecting...''
   \<and> console (step (FetchSettles FetchRejected) routesPage)
        = [''Real-time sync enabled for Transport Check-in page'',
           ''Polling error: TypeError: Failed to fetch'']"
proof -
  have "0 < inflight routesPage" by (simp add: routesPage_fields)
  from poll_network_failure [OF this] show ?thesis by (simp add: routesPage_fields)
qed

text \<open>
  Claim C3, as the code has it. A successful payload with no \<^verbatim>\<open>routes\<close> field (and neither
  \<^verbatim>\<open>routes_updated\<close> nor \<^verbatim>\<open>needs_refresh\<close> set) leaves the page untouched: rows, table body,
  indicator, reload count and pending refreshes are as before. The cursor is overwritten
  with the payload's \<^verbatim>\<open>timestamp\<close> field whatever it holds: the timestamp when there is
  one, \<^verbatim>\<open>undefined\<close> when the field is absent.
\<close>

theorem success_only_payload:
  assumes "0 < inflight w" and "success d" and "routes d = None"
    and "\<not> routes_updated d" and "\<not> needs_refresh d"
  shows "nodes (step (FetchSettles (Json d)) w) = nodes w
    \<and> tbody (step (FetchSettles (Json d)) w) = tbody w
    \<and> tbodyOpacity (step (FetchSettles (Json d)) w) = tbodyOpacity w
    \<and> connection (step (FetchSettles (Json d)) w) = connection w
    \<and> reloads (step (FetchSettles (Json d)) w) = reloads w
    \<and> contentFetches (step (FetchSettles (Json d)) w) = contentFetches w
    \<and> swaps (step (FetchSettles (Json d)) w) = swaps w
    \<and> lastUpdate (self (step (FetchSettles (Json d)) w)) = timestamp d"
  using assms
  by (simp add: step_def poll_settled_def tryBlock_def scheduleNext_def handleSyncData_def Let_def)

theorem success_only_payload_witness:
  "lastUpdate (self (step (FetchSettles (Json \<lparr>success = True, timestamp = Some 1700000000000,
       routes_updated = False, routes = None, needs_refresh = False\<rparr>)) routesPage)) = Some 1700000000000
   \<and> nodes (step (FetchSettles (Json \<lparr>success = True, timestamp = Some 1700000000000,
       routes_updated = False, routes = None, needs_refresh = False\<rparr>)) routesPage) = nodes routesPage"
  using success_only_payload [of routesPage "\<lparr>success = True, timestamp = Some 1700000000000,
       routes_updated = False, routes = None, needs_refresh = False\<rparr>"]
  by (simp add: routesPage_fields)

text \<open>
  The claim as stated fails where the timestamp is absent: the cursor of the freshly
  loaded page is 0, and after the payload \<^verbatim>\<open>{success: true}\<close> it is \<^verbatim>\<open>undefined\<close>, not 0.
\<close>

theorem cursor_lost_without_timestamp:
  "lastUpdate (self routesPage) = Some 0
   \<and> lastUpdate (self (step (FetchSettles (Json \<lparr>success = True, timestamp = None,
         routes_updated = False, routes = None, needs_refresh = False\<rparr>)) routesPage)) = None"
  by (simp add: routesPage_eval step_def poll_settled_def tryBlock_def scheduleNext_def
        handleSyncData_def Let_def)

section \<open>The sync cursor over a page session\<close>

lemma lastUpdate_init: "lastUpdate (self (init w)) = lastUpdate (self w)"
  by (simp add: init_def startPolling_def stopPolling_def poll_def showConnectionStatus_def
        log_def Let_def split: option.splits)

lemma cursor_step:
  "lastUpdate (self (step e w)) =
     (case e of
        FetchSettles (Json d) \<Rightarrow>
          if success d \<and> 0 < inflight w then timestamp d else lastUpdate (self w)
      | _ \<Rightarrow> lastUpdate (self w))"
proof (cases e)
  case (FetchSettles r)
  then show ?thesis
    by (cases r)
       (simp_all add: step_def poll_settled_def tryBlock_def scheduleNext_def
          showConnectionStatus_def log_def self_handleSyncData Let_def)
next
  case (ContentSettles i c)
  then show ?thesis
    by (cases c)
       (simp_all add: step_def updateRoutesContent_settled_def updateStudentsContent_settled_def
          fadeAndSchedule_def log_def Let_def split: option.splits)
next
  case SwapFires
  then show ?thesis
    by (simp add: step_def swapTableBody_def split: list.splits option.splits prod.splits)
qed (simp_all add: step_def startPolling_def stopPolling_def poll_def showConnectionStatus_def
       Let_def split: option.splits)

lemma cursors_sorted:
  "lastUpdate (self w) = Some c \<Longrightarrow> stamps es = map Some ks \<Longrightarrow> sorted (c # ks)
     \<Longrightarrow> \<exists>cs. cursors es w = map Some cs \<and> sorted (c # cs) \<and> set cs \<subseteq> insert c (set ks)"
proof (induction es arbitrary: w c ks)
  case Nil
  then show ?case by simp
next
  case (Cons e es)
  show ?case
  proof (cases "\<exists>d. e = FetchSettles (Json d) \<and> success d")
    case True
    then obtain d where e: "e = FetchSettles (Json d)" and d: "success d" by blast
    from Cons.prems(2) e d obtain k ks' where ks: "ks = k # ks'" and k: "timestamp d = Some k"
      and rest: "stamps es = map Some ks'"
      by (cases ks) auto
    show ?thesis
    proof (cases "0 < inflight w")
      case True
      have cur: "lastUpdate (self (step e w)) = Some k"
        using e d k True by (simp add: cursor_step)
      have "sorted (k # ks')" using Cons.prems(3) ks by simp
      from Cons.IH [OF cur rest this] obtain cs where
        cs: "cursors es (step e w) = map Some cs" "sorted (k # cs)" "set cs \<subseteq> insert k (set ks')"
        by blast
      have "c \<le> k" using Cons.prems(3) ks by simp
      then have "cursors (e # es) w = map Some (k # cs) \<and> sorted (c # k # cs)
                   \<and> set (k # cs) \<subseteq> insert c (set ks)"
        using cs cur ks by auto
      then show ?thesis by blast
    next
      case False
      have cur: "lastUpdate (self (step e w)) = Some c"
        using e False Cons.prems(1) by (simp add: cursor_step)
      have "sorted (c # ks')" using Cons.prems(3) ks by auto
      from Cons.IH [OF cur rest this] obtain cs where
        cs: "cursors es (step e w) = map Some cs" "sorted (c # cs)" "set cs \<subseteq> insert c (set ks')"
        by blast
      have "cursors (e # es) w = map Some (c # cs) \<and> sorted (c # c # cs)
                   \<and> set (c # cs) \<subseteq> insert c (set ks)"
        using cs cur ks by auto
      then show ?thesis by blast
    qed
  next
    case False
    have cur: "lastUpdate (self (step e w)) = Some c"
      using False Cons.prems(1)
      by (auto simp: cursor_step split: event.splits response.splits)
    have rest: "stamps es = map Some ks"
      using False Cons.prems(2) by (cases "(e # es)" rule: stamps.cases) auto
    from Cons.IH [OF cur rest Cons.prems(3)] obtain cs where
      cs: "cursors es (step e w) = map Some cs" "sorted (c # cs)" "set cs \<subseteq> insert c (set ks)"
      by blast
    have "cursors (e # es) w = map Some (c # cs) \<and> sorted (c # c # cs)
                 \<and> set (c # cs) \<subseteq> insert c (set ks)"
      using cs cur by auto
    then show ?thesis by blast
  qed
qed

text \<open>
  Claim C2, as the code has it. The cursor is 0 after the constructor. An event changes
  it only when a poll in flight settles with an \<^verbatim>\<open>ok\<close> response whose payload has
  \<^verbatim>\<open>success\<close> set, and then to that payload's timestamp; \<^verbatim>\<open>poll\<close> compares nothing. So over
  any run in which the successful payloads carry timestamps that are non-decreasing and
  not below the starting cursor, the cursor never moves backward, and every value it
  takes is the starting one or one of those timestamps.
\<close>

theorem cursor_monotone_on_monotone_stamps:
  "lastUpdate (self (new_RealTimeUpdater path doc tb t0)) = Some 0
   \<and> (lastUpdate (self w) = Some c \<and> stamps es = map Some ks \<and> sorted (c # ks)
        \<longrightarrow> (\<exists>cs. cursors es w = map Some cs \<and> sorted (c # cs) \<and> set cs \<subseteq> insert c (set ks)))"
proof -
  have "lastUpdate (self (new_RealTimeUpdater path doc tb t0)) = Some 0"
    by (simp add: new_RealTimeUpdater_def lastUpdate_init)
  then show ?thesis using cursors_sorted [of w c es ks] by blast
qed

theorem cursor_monotone_on_monotone_stamps_witness:
  "cursors [FetchSettles (Json \<lparr>success = True, timestamp = Some 5, routes_updated = False,
                               routes = None, needs_refresh = False\<rparr>),
            TimerFires 1,
            FetchSettles (Json \<lparr>success = True, timestamp = Some 10, routes_updated = False,
                               routes = None, needs_refresh = False\<rparr>)] routesPage
     = [Some 5, Some 5, Some 10]"
proof -
  let ?es = "[FetchSettles (Json \<lparr>success = True, timestamp = Some 5, routes_updated = False,
                               routes = None, needs_refresh = False\<rparr>),
            TimerFires 1,
            FetchSettles (Json \<lparr>success = True, timestamp = Some 10, routes_updated = False,
                               routes = None, needs_refresh = False\<rparr>)]"
  have "lastUpdate (self routesPage) = Some 0 \<and> stamps ?es = map Some [5, 10] \<and> sorted (0 # [5, 10 :: int])"
    by (simp add: routesPage_fields)
  with cursor_monotone_on_monotone_stamps [of "''/routes''" "[]" None 0 routesPage 0 ?es "[5, 10]"]
  obtain cs where "cursors ?es routesPage = map Some cs" "sorted (0 # cs)" by blast
  moreover have "cursors ?es routesPage = [Some 5, Some 5, Some 10]"
    by (simp add: routesPage_eval step_def poll_settled_def tryBlock_def scheduleNext_def
          handleSyncData_def poll_def Let_def)
  ultimately show ?thesis by simp
qed

text \<open>
  The claim as stated fails: nothing keeps the cursor from moving backward. After a
  payload stamped 10 and, one interval later, a payload stamped 5, the cursor is 5.
\<close>

theorem cursor_moves_backward:
  "cursors [FetchSettles (Json \<lparr>success = True, timestamp = Some 10, routes_updated = False,
                               routes = None, needs_refresh = False\<rparr>),
            TimerFires 1,
            FetchSettles (Json \<lparr>success = True, timestamp = Some 5, routes_updated = False,
                               routes = None, needs_refresh = False\<rparr>)] routesPage
     = [Some 10, Some 10, Some 5]"
  by (simp add: routesPage_eval step_def poll_settled_def tryBlock_def scheduleNext_def
        handleSyncData_def poll_def Let_def)

section \<open>Page reloads triggered by the sync\<close>

lemma reloads_updateRouteData: "reloads (updateRouteData rs w) = reloads w"
  by (simp add: frame_updateRouteData)

lemma reloads_handleSyncData:
  "reloads (handleSyncData d w) =
     (if currentPage (self w) = ''routes'' \<and> routes_updated d then Suc (reloads w) else reloads w)"
  by (simp add: handleSyncData_def log_def reloads_updateRouteData refreshRoutesPage_def
        updateRoutesContent_def refreshStudentsPage_def updateStudentsContent_def
        isUserAction_def Let_def)

lemma reloads_poll_settled:
  "reloads (poll_settled r w) =
     (case r of
        Json d \<Rightarrow> if success d \<and> currentPage (self w) = ''routes'' \<and> routes_updated d
                  then Suc (reloads w) else reloads w
      | _ \<Rightarrow> reloads w)"
  by (cases r)
     (simp_all add: poll_settled_def tryBlock_def scheduleNext_def showConnectionStatus_def
        log_def reloads_handleSyncData Let_def)

lemma reloads_content_settled:
  "reloads (updateRoutesContent_settled c w) = (if c = ContentRejected then Suc (reloads w) else reloads w)"
  "reloads (updateStudentsContent_settled c w) = (if c = ContentRejected then Suc (reloads w) else reloads w)"
  by (cases c; simp add: updateRoutesContent_settled_def updateStudentsContent_settled_def
        fadeAndSchedule_def log_def split: option.splits)+

lemma reloads_step:
  "reloads (step e w) =
     (case e of
        FetchSettles (Json d) \<Rightarrow>
          if 0 < inflight w \<and> success d \<and> currentPage (self w) = ''routes'' \<and> routes_updated d
          then Suc (reloads w) else reloads w
      | ContentSettles i c \<Rightarrow>
          if i < length (contentFetches w) \<and> c = ContentRejected then Suc (reloads w) else reloads w
      | _ \<Rightarrow> reloads w)"
proof (cases e)
  case (FetchSettles r)
  then show ?thesis
    by (cases r) (simp_all add: step_def reloads_poll_settled)
next
  case (ContentSettles i c)
  then show ?thesis
    by (simp add: step_def reloads_content_settled Let_def)
next
  case SwapFires
  then show ?thesis
    by (simp add: step_def swapTableBody_def split: list.splits option.splits prod.splits)
qed (simp_all add: step_def startPolling_def stopPolling_def poll_def showConnectionStatus_def
       Let_def split: option.splits)

text \<open>
  Claim C8, as the code has it. On the routes page a payload with \<^verbatim>\<open>routes_updated\<close> set
  makes \<^verbatim>\<open>handleSyncData\<close> reload the page and return at once: no row is patched and no
  content refresh is started. An event of the background sync reloads the page in two
  cases only, once each time: a successful poll payload with \<^verbatim>\<open>routes_updated\<close> on the
  routes page, and a content refresh whose fetch rejects (the \<^verbatim>\<open>catch\<close> fallback of
  \<^verbatim>\<open>updateRoutesContent\<close> and \<^verbatim>\<open>updateStudentsContent\<close>).
\<close>

theorem reload_causes:
  "(currentPage (self w) = ''routes'' \<and> routes_updated d
      \<longrightarrow> reloads (handleSyncData d w) = Suc (reloads w)
          \<and> nodes (handleSyncData d w) = nodes w
          \<and> contentFetches (handleSyncData d w) = contentFetches w)
   \<and> (reloads (step e w) \<noteq> reloads w
      \<longrightarrow> reloads (step e w) = Suc (reloads w)
          \<and> ((\<exists>p. e = FetchSettles (Json p) \<and> success p \<and> routes_updated p
                    \<and> currentPage (self w) = ''routes'')
               \<or> (\<exists>i. e = ContentSettles i ContentRejected)))"
proof -
  have a: "currentPage (self w) = ''routes'' \<and> routes_updated d
      \<longrightarrow> reloads (handleSyncData d w) = Suc (reloads w)
          \<and> nodes (handleSyncData d w) = nodes w
          \<and> contentFetches (handleSyncData d w) = contentFetches w"
    by (simp add: handleSyncData_def log_def)
  have b: "reloads (step e w) \<noteq> reloads w
      \<longrightarrow> reloads (step e w) = Suc (reloads w)
          \<and> ((\<exists>p. e = FetchSettles (Json p) \<and> success p \<and> routes_updated p
                    \<and> currentPage (self w) = ''routes'')
               \<or> (\<exists>i. e = ContentSettles i ContentRejected))"
    by (auto simp: reloads_step split: event.splits response.splits if_splits)
  from a b show ?thesis by blast
qed

theorem reload_causes_witness:
  "reloads (handleSyncData \<lparr>success = True, timestamp = Some 5, routes_updated = True,
                            routes = Some readyDelta, needs_refresh = False\<rparr> routesPage) = 1
   \<and> nodes (handleSyncData \<lparr>success = True, timestamp = Some 5, routes_updated = True,
                            routes = Some readyDelta, needs_refresh = False\<rparr> routesPage)
       = [Row \<lparr>inputs = [''7''], statusButton = Some notPresentButton\<rparr>]"
  using reload_causes [of routesPage "\<lparr>success = True, timestamp = Some 5, routes_updated = True,
                            routes = Some readyDelta, needs_refresh = False\<rparr>" Start]
  by (simp add: routesPage_fields)

text \<open>
  The claim as stated fails on ``the only case'': a payload that asks for a list refresh,
  with \<^verbatim>\<open>routes_updated\<close> unset, starts a content refresh, and when that fetch rejects the
  page is reloaded.
\<close>

theorem reload_without_routes_updated:
  "reloads (run [FetchSettles (Json \<lparr>success = True, timestamp = Some 5, routes_updated = False,
                                    routes = Some [], needs_refresh = True\<rparr>),
                 ContentSettles 0 ContentRejected] routesPage) = 1"
  by (simp add: routesPage_eval step_def poll_settled_def tryBlock_def scheduleNext_def
        handleSyncData_def updateRouteData_def refreshRoutesPage_def updateRoutesContent_def
        updateRoutesContent_settled_def log_def Let_def)

section \<open>Starting and stopping the poller\<close>

lemma isPolling_poll_settled: "isPolling (self (poll_settled r w)) = isPolling (self w)"
  by (cases r)
     (simp_all add: poll_settled_def tryBlock_def scheduleNext_def showConnectionStatus_def
        log_def self_handleSyncData Let_def)

lemma stopped_poll_settled:
  assumes "\<not> isPolling (self w)"
  shows "requests (poll_settled r w) = requests w \<and> inflight (poll_settled r w) = inflight w
    \<and> timers (poll_settled r w) = timers w"
  using assms
  by (cases r)
     (simp_all add: poll_settled_def tryBlock_def scheduleNext_def showConnectionStatus_def
        log_def self_handleSyncData pending_handleSyncData Let_def)

lemma stopped_step:
  assumes "\<not> isPolling (self w)" and "e \<noteq> Start"
  shows "\<not> isPolling (self (step e w)) \<and> requests (step e w) = requests w
    \<and> inflight (step e w) \<le> inflight w \<and> set (timers (step e w)) \<subseteq> set (timers w)"
proof (cases e)
  case Start
  with assms show ?thesis by simp
next
  case Stop
  with assms show ?thesis
    by (auto simp: step_def stopPolling_def Let_def split: option.splits)
next
  case (TimerFires t)
  with assms show ?thesis by (auto simp: step_def poll_def)
next
  case (FetchSettles r)
  show ?thesis
  proof (cases "inflight w = 0")
    case True
    with assms FetchSettles show ?thesis by (simp add: step_def)
  next
    case False
    have "\<not> isPolling (self (w\<lparr>inflight := inflight w - 1\<rparr>))" using assms by simp
    from stopped_poll_settled [OF this, of r] isPolling_poll_settled [of r "w\<lparr>inflight := inflight w - 1\<rparr>"]
    show ?thesis using assms FetchSettles False by (simp add: step_def)
  qed
next
  case HideFires
  with assms show ?thesis by (simp add: step_def)
next
  case (ContentSettles i c)
  with assms show ?thesis
    by (cases c)
       (simp_all add: step_def updateRoutesContent_settled_def updateStudentsContent_settled_def
          fadeAndSchedule_def log_def Let_def split: option.splits)
next
  case SwapFires
  with assms show ?thesis
    by (simp add: step_def swapTableBody_def split: list.splits option.splits prod.splits)
next
  case (Elapse ms)
  with assms show ?thesis by (simp add: step_def)
next
  case UserActs
  with assms show ?thesis by (simp add: step_def)
qed

lemma stopped_run:
  "\<not> isPolling (self w) \<Longrightarrow> Start \<notin> set es
     \<Longrightarrow> \<not> isPolling (self (run es w)) \<and> requests (run es w) = requests w
         \<and> inflight (run es w) \<le> inflight w \<and> set (timers (run es w)) \<subseteq> set (timers w)"
proof (induction es arbitrary: w)
  case Nil
  then show ?case by simp
next
  case (Cons e es)
  have e: "e \<noteq> Start" and es: "Start \<notin> set es" using Cons.prems(2) by auto
  note s = stopped_step [OF Cons.prems(1) e]
  from s have "\<not> isPolling (self (step e w))" by blast
  from Cons.IH [OF this es] s show ?case by auto
qed

lemma stopPolling_fields:
  "\<not> isPolling (self (stopPolling w))" "pollTimer (self (stopPolling w)) = None"
  "requests (stopPolling w) = requests w" "inflight (stopPolling w) = inflight w"
  by (simp_all add: stopPolling_def Let_def split: option.splits)

lemma stopPolling_idem: "stopPolling (stopPolling w) = stopPolling w"
  by (simp add: stopPolling_def Let_def split: option.splits)

lemma stopPolling_clears:
  "pollTimer (self w) = Some t \<Longrightarrow> t \<notin> fst ` set (timers (stopPolling w))"
  by (auto simp: stopPolling_def Let_def)

lemma stopPolling_clears_all:
  assumes "\<forall>p \<in> set (timers w). pollTimer (self w) = Some (fst p)"
  shows "timers (stopPolling w) = []"
proof (cases "pollTimer (self w)")
  case None
  with assms have "timers w = []" by (cases "timers w") auto
  with None show ?thesis by (simp add: stopPolling_def Let_def)
next
  case (Some t)
  with assms have "\<forall>p \<in> set (timers w). fst p = t" by auto
  then have "filter (\<lambda>p. fst p \<noteq> t) (timers w) = []" by (simp add: filter_empty_conv)
  with Some show ?thesis by (simp add: stopPolling_def Let_def)
qed

text \<open>
  Claim C6. \<^verbatim>\<open>stopPolling\<close> turns polling off and cancels the timer that \<^verbatim>\<open>pollTimer\<close>
  holds, which leaves no timer pending whenever the pending ones are the one the updater
  tracks; a second call changes nothing. After it, as long as \<^verbatim>\<open>startPolling\<close> is not
  called, no event sends a poll request: the list of requests stays as it is, the number
  of fetches in flight does not grow, no timer is added, and polling stays off (a fetch
  that was in flight settles without scheduling a successor, and a stale timer that
  fires returns at once).
\<close>

theorem stopPolling_halts:
  "stopPolling (stopPolling w) = stopPolling w
   \<and> \<not> isPolling (self (stopPolling w))
   \<and> pollTimer (self (stopPolling w)) = None
   \<and> (pollTimer (self w) = Some t \<longrightarrow> t \<notin> fst ` set (timers (stopPolling w)))
   \<and> ((\<forall>p \<in> set (timers w). pollTimer (self w) = Some (fst p)) \<longrightarrow> timers (stopPolling w) = [])
   \<and> (Start \<notin> set es
        \<longrightarrow> requests (run es (stopPolling w)) = requests w
            \<and> inflight (run es (stopPolling w)) \<le> inflight w
            \<and> set (timers (run es (stopPolling w))) \<subseteq> set (timers (stopPolling w))
            \<and> \<not> isPolling (self (run es (stopPolling w))))"
proof -
  have r: "Start \<notin> set es
        \<longrightarrow> requests (run es (stopPolling w)) = requests w
            \<and> inflight (run es (stopPolling w)) \<le> inflight w
            \<and> set (timers (run es (stopPolling w))) \<subseteq> set (timers (stopPolling w))
            \<and> \<not> isPolling (self (run es (stopPolling w)))"
    using stopped_run [OF stopPolling_fields(1), of es w] by (simp add: stopPolling_fields)
  show ?thesis
    using r stopPolling_idem [of w] stopPolling_clears [of w t] stopPolling_clears_all [of w]
    by (simp add: stopPolling_fields)
qed

lemma waitingPage_fields:
  "timers (step (FetchSettles NotOk) routesPage) = [(1, 5000)]"
  "pollTimer (self (step (FetchSettles NotOk) routesPage)) = Some 1"
  "requests (step (FetchSettles NotOk) routesPage) = [(''routes'', Some 0)]"
  by (simp_all add: routesPage_eval step_def poll_settled_def tryBlock_def scheduleNext_def)

theorem stopPolling_halts_witness:
  "timers (stopPolling (step (FetchSettles NotOk) routesPage)) = []
   \<and> requests (run [TimerFires 1, Elapse 5000, FetchSettles NotOk, TimerFires 1]
                 (stopPolling (step (FetchSettles NotOk) routesPage))) = [(''routes'', Some 0)]"
  using stopPolling_halts [of "step (FetchSettles NotOk) routesPage" 1
          "[TimerFires 1, Elapse 5000, FetchSettles NotOk, TimerFires 1]"]
  by (simp add: waitingPage_fields)

lemma startPolling_noop: "isPolling (self w) \<Longrightarrow> startPolling w = w"
  by (simp add: startPolling_def)

lemma filter_timer_shorter:
  assumes "t \<in> fst ` set ts"
  shows "length (filter (\<lambda>p. fst p \<noteq> t) ts) < length ts"
proof -
  from assms obtain p where "p \<in> set ts" and "\<not> fst p \<noteq> t" by auto
  then show ?thesis by (rule length_filter_less)
qed

lemma oneChain_frame:
  "inflight w' = inflight w \<Longrightarrow> timers w' = timers w \<Longrightarrow> isPolling (self w') = isPolling (self w)
     \<Longrightarrow> oneChain w \<Longrightarrow> oneChain w'"
  by (simp add: oneChain_def)

lemma oneChain_poll_settled:
  assumes "inflight w + length (timers w) = 0" and "isPolling (self w)"
  shows "oneChain (poll_settled r w)"
  using assms
  by (cases r)
     (simp_all add: oneChain_def poll_settled_def tryBlock_def scheduleNext_def
        showConnectionStatus_def log_def self_handleSyncData pending_handleSyncData Let_def)

lemma oneChain_step:
  assumes "oneChain w" and "e \<noteq> Stop"
  shows "oneChain (step e w)"
proof (cases e)
  case Start
  with assms show ?thesis
    by (auto simp: oneChain_def step_def startPolling_def poll_def showConnectionStatus_def Let_def
          split: if_splits)
next
  case Stop
  with assms show ?thesis by simp
next
  case (TimerFires t)
  show ?thesis
  proof (cases "t \<in> fst ` set (timers w)")
    case True
    from True have "0 < length (timers w)" by auto
    with assms(1) have p: "isPolling (self w)" and z: "inflight w = 0" "length (timers w) \<le> 1"
      by (simp_all add: oneChain_def del: length_greater_0_conv split: if_splits)
    from filter_timer_shorter [OF True] z(2)
    have "length (filter (\<lambda>p. fst p \<noteq> t) (timers w)) = 0" by arith
    then have "filter (\<lambda>p. fst p \<noteq> t) (timers w) = []" by simp
    with TimerFires True p z show ?thesis
      by (simp add: oneChain_def step_def poll_def)
  next
    case False
    with assms TimerFires show ?thesis by (simp add: step_def)
  qed
next
  case (FetchSettles r)
  show ?thesis
  proof (cases "inflight w = 0")
    case True
    with assms FetchSettles show ?thesis by (simp add: step_def)
  next
    case False
    with assms(1) have p: "isPolling (self w)" and z1: "inflight w = 1" and z2: "length (timers w) = 0"
      by (simp_all add: oneChain_def del: length_0_conv split: if_splits)
    from z2 have z: "inflight w = 1" "timers w = []" using z1 by simp_all
    have "oneChain (poll_settled r (w\<lparr>inflight := inflight w - 1\<rparr>))"
      by (rule oneChain_poll_settled) (simp_all add: p z)
    with FetchSettles False show ?thesis by (simp add: step_def)
  qed
next
  case HideFires
  show ?thesis
    by (rule oneChain_frame [OF _ _ _ assms(1)]) (simp_all add: HideFires step_def)
next
  case (ContentSettles i c)
  show ?thesis
    by (rule oneChain_frame [OF _ _ _ assms(1)]; cases c)
       (simp_all add: ContentSettles step_def updateRoutesContent_settled_def
          updateStudentsContent_settled_def fadeAndSchedule_def log_def Let_def split: option.splits)
next
  case SwapFires
  show ?thesis
    by (rule oneChain_frame [OF _ _ _ assms(1)])
       (simp_all add: SwapFires step_def swapTableBody_def split: list.splits option.splits prod.splits)
next
  case (Elapse ms)
  show ?thesis
    by (rule oneChain_frame [OF _ _ _ assms(1)]) (simp_all add: Elapse step_def)
next
  case UserActs
  show ?thesis
    by (rule oneChain_frame [OF _ _ _ assms(1)]) (simp_all add: UserActs step_def)
qed

text \<open>
  While \<^verbatim>\<open>stopPolling\<close> is never called, the polls of a freshly constructed updater form
  one chain: at most one fetch is in flight at any time (and none while a timer waits),
  however often \<^verbatim>\<open>startPolling\<close> is called.
\<close>

lemma single_flight_without_stop:
  "oneChain w \<Longrightarrow> Stop \<notin> set es \<Longrightarrow> oneChain (run es w) \<and> inflight (run es w) \<le> 1"
proof (induction es arbitrary: w)
  case Nil
  then show ?case by (auto simp: oneChain_def split: if_splits)
next
  case (Cons e es)
  have "oneChain (step e w)" using Cons.prems by (auto intro: oneChain_step)
  with Cons.IH [of "step e w"] Cons.prems(2) show ?case by simp
qed

lemma oneChain_new: "oneChain (new_RealTimeUpdater path doc tb t0)"
  by (simp add: new_RealTimeUpdater_def init_def oneChain_def startPolling_def stopPolling_def
        poll_def showConnectionStatus_def log_def Let_def)

lemma isPolling_startPolling: "isPolling (self (startPolling w))"
  by (simp add: startPolling_def poll_def showConnectionStatus_def Let_def)

lemma startPolling_twice: "startPolling (startPolling w) = startPolling w"
  by (rule startPolling_noop [OF isPolling_startPolling])

lemma timers_poll_settled:
  "length (timers (poll_settled r w)) \<le> Suc (length (timers w))"
  by (cases r)
     (simp_all add: poll_settled_def tryBlock_def scheduleNext_def showConnectionStatus_def
        log_def pending_handleSyncData Let_def)

lemma timer_added_only_on_settle:
  assumes "length (timers w) < length (timers (step e w))"
  shows "(\<exists>r. e = FetchSettles r) \<and> 0 < inflight w"
proof (cases e)
  case Start
  with assms show ?thesis
    by (simp add: step_def startPolling_def poll_def showConnectionStatus_def Let_def split: if_splits)
next
  case Stop
  have "length (timers (stopPolling w)) \<le> length (timers w)"
    by (simp add: stopPolling_def Let_def split: option.splits)
  with assms Stop show ?thesis by (simp add: step_def)
next
  case (TimerFires t)
  from assms TimerFires
  have "length (timers w) < length (filter (\<lambda>p. fst p \<noteq> t) (timers w))"
    by (simp add: step_def poll_def split: if_splits)
  with length_filter_le [of "\<lambda>p. fst p \<noteq> t" "timers w"] show ?thesis by arith
next
  case (FetchSettles r)
  with assms show ?thesis by (cases "inflight w = 0") (simp_all add: step_def)
next
  case HideFires
  with assms show ?thesis by (simp add: step_def split: if_splits)
next
  case (ContentSettles i c)
  with assms show ?thesis
    by (cases c)
       (simp_all add: step_def updateRoutesContent_settled_def updateStudentsContent_settled_def
          fadeAndSchedule_def log_def Let_def split: option.splits if_splits)
next
  case SwapFires
  with assms show ?thesis
    by (simp add: step_def swapTableBody_def split: list.splits option.splits prod.splits)
next
  case (Elapse ms)
  with assms show ?thesis by (simp add: step_def)
next
  case UserActs
  with assms show ?thesis by (simp add: step_def)
qed

text \<open>
  Claim C5. \<^verbatim>\<open>startPolling\<close> changes nothing while polling is on, so a second call in a
  row is the first one. Over every run of a constructed updater in which the page's
  events, timers, fetches and further \<^verbatim>\<open>startPolling\<close> calls come in any order
  (\<^verbatim>\<open>stopPolling\<close>, which only \<^verbatim>\<open>init\<close> calls, does not occur again), at most one poll fetch is
  in flight at any time, and never together with a pending poll timer. The reason is the
  scheduling: an event adds a poll timer only when it is a poll fetch settling.
\<close>

theorem start_idempotent_single_flight:
  "(isPolling (self w) \<longrightarrow> startPolling w = w)
   \<and> startPolling (startPolling w) = startPolling w
   \<and> (Stop \<notin> set es
        \<longrightarrow> inflight (run es (new_RealTimeUpdater path doc tb t0)) \<le> 1
            \<and> inflight (run es (new_RealTimeUpdater path doc tb t0))
                + length (timers (run es (new_RealTimeUpdater path doc tb t0))) \<le> 1)
   \<and> (length (timers w) < length (timers (step e w))
        \<longrightarrow> (\<exists>r. e = FetchSettles r) \<and> 0 < inflight w)"
proof -
  have a: "isPolling (self w) \<longrightarrow> startPolling w = w"
    by (simp add: startPolling_noop)
  have b: "inflight (run es (new_RealTimeUpdater path doc tb t0)) \<le> 1
            \<and> inflight (run es (new_RealTimeUpdater path doc tb t0))
                + length (timers (run es (new_RealTimeUpdater path doc tb t0))) \<le> 1"
    if "Stop \<notin> set es"
  proof -
    from single_flight_without_stop [OF oneChain_new that, of path doc tb t0]
    have c: "oneChain (run es (new_RealTimeUpdater path doc tb t0))"
      and i: "inflight (run es (new_RealTimeUpdater path doc tb t0)) \<le> 1"
      by blast+
    from c have "inflight (run es (new_RealTimeUpdater path doc tb t0))
                + length (timers (run es (new_RealTimeUpdater path doc tb t0))) \<le> 1"
      by (simp add: oneChain_def split: if_splits)
    with i show ?thesis by simp
  qed
  have c: "length (timers w) < length (timers (step e w))
        \<longrightarrow> (\<exists>r. e = FetchSettles r) \<and> 0 < inflight w"
    using timer_added_only_on_settle [of w e] by blast
  from a b c startPolling_twice [of w] show ?thesis by blast
qed

theorem start_idempotent_single_flight_witness:
  "inflight (run [Start, FetchSettles NotOk, Start, TimerFires 1, Start] routesPage) = 1
   \<and> timers (run [Start, FetchSettles NotOk, Start, TimerFires 1, Start] routesPage) = []
   \<and> requests (run [Start, Start] routesPage) = [(''routes'', Some 0)]"
proof -
  let ?es = "[Start, FetchSettles NotOk, Start, TimerFires 1, Start]"
  have "Stop \<notin> set ?es" by simp
  with start_idempotent_single_flight
         [of _ ?es "''/routes''" "[Row \<lparr>inputs = [''7''], statusButton = Some notPresentButton\<rparr>]"
             "Some (0, 1)" 1000]
  have "inflight (run ?es routesPage) \<le> 1" by (simp add: routesPage_def)
  moreover have "inflight (run ?es routesPage) = 1 \<and> timers (run ?es routesPage) = []
      \<and> requests (run [Start, Start] routesPage) = [(''routes'', Some 0)]"
    by (simp add: routesPage_eval step_def startPolling_def poll_def poll_settled_def tryBlock_def
          scheduleNext_def Let_def)
  ultimately show ?thesis by simp
qed

text \<open>
  The hypothesis on \<^verbatim>\<open>stopPolling\<close> above is needed: a \<^verbatim>\<open>stopPolling\<close>
  does not abort the fetch in flight, and a \<^verbatim>\<open>startPolling\<close> that followed it before the
  fetch settled would send a second request. No caller does that: \<^verbatim>\<open>stopPolling\<close> is
  called by \<^verbatim>\<open>init\<close> alone, on the pages that never poll.
\<close>

lemma restart_during_flight:
  "inflight (run [Stop, Start] routesPage) = 2"
  by (simp add: routesPage_eval step_def stopPolling_def startPolling_def poll_def
        showConnectionStatus_def Let_def)

section \<open>Clicks on a status button\<close>

lemma loading_flags:
  "processing (showLoadingState b) = processing b" "disabled (showLoadingState b)"
  "processing (hideLoadingState b) = processing b" "\<not> disabled (hideLoadingState b)"
  by (simp_all add: showLoadingState_def hideLoadingState_def)

lemma cycleRouteStatus_ignored:
  "disabled (btn p) \<or> processing (btn p) = Some ''true''
     \<Longrightarrow> cycleRouteStatus routeId p
           = p\<lparr>clicklog := clicklog p @ [''Button click ignored - already processing'']\<rparr>"
  by (simp add: cycleRouteStatus_def)

lemma settled_fields:
  "reenables (cycleRouteStatus_settled outcome p) = reenables p @ [300]"
  "posts (cycleRouteStatus_settled outcome p) = posts p"
  "processing (btn (cycleRouteStatus_settled outcome p)) = processing (btn p)"
  "guard (cycleRouteStatus_settled outcome p) = guard p"
  by (cases outcome; simp add: cycleRouteStatus_settled_def loading_flags Let_def)+

lemma oneRequest_step:
  assumes "oneRequest p"
  shows "oneRequest (click_step e p)"
proof (cases e)
  case (Click routeId)
  show ?thesis
  proof (cases "disabled (btn p) \<or> processing (btn p) = Some ''true''")
    case True
    then show ?thesis
      using assms Click by (simp add: click_step_def cycleRouteStatus_ignored oneRequest_def)
  next
    case False
    with assms have "posts p = []" "reenables p = []" by (auto simp: oneRequest_def)
    with False Click show ?thesis
      by (simp add: click_step_def cycleRouteStatus_def oneRequest_def loading_flags Let_def)
  qed
next
  case (PostSettles i outcome)
  show ?thesis
  proof (cases "i < length (posts p)")
    case True
    then have ne: "posts p \<noteq> []" by auto
    from assms have le: "length (posts p) + length (reenables p) \<le> 1"
      by (simp add: oneRequest_def)
    from ne have "0 < length (posts p)" by simp
    with le have l: "length (posts p) = 1" and r: "length (reenables p) = 0" by arith+
    from assms ne have t: "processing (btn p) = Some ''true''" by (auto simp: oneRequest_def)
    from l True have i: "i = 0" by simp
    from l have "drop (Suc 0) (posts p) = []" by simp
    with PostSettles True i r t show ?thesis
      by (simp add: click_step_def oneRequest_def settled_fields)
  next
    case False
    with assms PostSettles show ?thesis by (simp add: click_step_def)
  qed
next
  case ReenableFires
  show ?thesis
  proof (cases "reenables p")
    case Nil
    with assms ReenableFires show ?thesis by (simp add: click_step_def)
  next
    case (Cons ms rest)
    with assms have "posts p = []" "rest = []" by (simp_all add: oneRequest_def)
    with ReenableFires Cons show ?thesis
      by (simp add: click_step_def reenable_def oneRequest_def)
  qed
next
  case (SyncPatch d)
  with assms show ?thesis by (simp add: click_step_def oneRequest_def patch_flags)
next
  case (Tick ms)
  with assms show ?thesis by (simp add: click_step_def oneRequest_def)
qed

lemma oneRequest_run: "oneRequest p \<Longrightarrow> oneRequest (click_run es p)"
  by (induction es arbitrary: p) (simp_all add: oneRequest_step)

text \<open>
  Claim C10. A click that finds the button disabled or marked as processing returns at
  once: apart from the console line nothing changes (no request, no guard mark, no
  stored user action, the button as it was). From a page with nothing pending, whatever
  the clicks, answers, timers and sync patches, at most one cycle-status request of the
  button is in flight, and while a request or a re-enable timer is pending every click is
  ignored. When a request settles the re-enable timer is started with 300 ms and the
  processing mark stays; when the timer fires the mark is cleared and the button enabled.
\<close>

theorem cycleRouteStatus_single_flight:
  "(disabled (btn p) \<or> processing (btn p) = Some ''true''
      \<longrightarrow> cycleRouteStatus routeId p
            = p\<lparr>clicklog := clicklog p @ [''Button click ignored - already processing'']\<rparr>)
   \<and> (posts p0 = [] \<and> reenables p0 = []
      \<longrightarrow> length (posts (click_run es p0)) \<le> 1
          \<and> (posts (click_run es p0) \<noteq> [] \<or> reenables (click_run es p0) \<noteq> []
               \<longrightarrow> cycleRouteStatus routeId (click_run es p0)
                     = (click_run es p0)\<lparr>clicklog := clicklog (click_run es p0)
                           @ [''Button click ignored - already processing'']\<rparr>))
   \<and> (i < length (posts p)
      \<longrightarrow> reenables (click_step (PostSettles i outcome) p) = reenables p @ [300]
          \<and> processing (btn (click_step (PostSettles i outcome) p)) = processing (btn p))
   \<and> (reenables p \<noteq> []
      \<longrightarrow> processing (btn (click_step ReenableFires p)) = Some ''false''
          \<and> \<not> disabled (btn (click_step ReenableFires p))
          \<and> reenables (click_step ReenableFires p) = tl (reenables p))"
proof -
  have a: "disabled (btn p) \<or> processing (btn p) = Some ''true''
      \<longrightarrow> cycleRouteStatus routeId p
            = p\<lparr>clicklog := clicklog p @ [''Button click ignored - already processing'']\<rparr>"
    by (simp add: cycleRouteStatus_ignored)
  have b: "length (posts (click_run es p0)) \<le> 1
          \<and> (posts (click_run es p0) \<noteq> [] \<or> reenables (click_run es p0) \<noteq> []
               \<longrightarrow> cycleRouteStatus routeId (click_run es p0)
                     = (click_run es p0)\<lparr>clicklog := clicklog (click_run es p0)
                           @ [''Button click ignored - already processing'']\<rparr>)"
    if "posts p0 = [] \<and> reenables p0 = []"
  proof -
    from that have "oneRequest p0" by (simp add: oneRequest_def)
    then have inv: "oneRequest (click_run es p0)" by (rule oneRequest_run)
    then have "length (posts (click_run es p0)) \<le> 1" by (simp add: oneRequest_def)
    moreover have "processing (btn (click_run es p0)) = Some ''true''"
      if "posts (click_run es p0) \<noteq> [] \<or> reenables (click_run es p0) \<noteq> []"
      using inv that by (auto simp: oneRequest_def)
    ultimately show ?thesis by (simp add: cycleRouteStatus_ignored)
  qed
  have c: "i < length (posts p)
      \<longrightarrow> reenables (click_step (PostSettles i outcome) p) = reenables p @ [300]
          \<and> processing (btn (click_step (PostSettles i outcome) p)) = processing (btn p)"
    by (simp add: click_step_def settled_fields)
  have d: "reenables p \<noteq> []
      \<longrightarrow> processing (btn (click_step ReenableFires p)) = Some ''false''
          \<and> \<not> disabled (btn (click_step ReenableFires p))
          \<and> reenables (click_step ReenableFires p) = tl (reenables p)"
    by (cases "reenables p") (simp_all add: click_step_def reenable_def)
  from a b c d show ?thesis by blast
qed

theorem cycleRouteStatus_single_flight_witness:
  "length (posts (click_run [Click ''7'', Click ''7'', SyncPatch \<lparr>status = ''ready'', status_color = ''success''\<rparr>,
                             Click ''7''] buttonPage)) \<le> 1
   \<and> posts (click_run [Click ''7'', Click ''7''] buttonPage) = [''7'']"
proof -
  have "posts buttonPage = [] \<and> reenables buttonPage = []" by (simp add: buttonPage_def)
  with cycleRouteStatus_single_flight [of _ _ buttonPage
         "[Click ''7'', Click ''7'', SyncPatch \<lparr>status = ''ready'', status_color = ''success''\<rparr>, Click ''7'']"]
  have "length (posts (click_run [Click ''7'', Click ''7'', SyncPatch \<lparr>status = ''ready'', status_color = ''success''\<rparr>,
                             Click ''7''] buttonPage)) \<le> 1"
    by blast
  moreover have "posts (click_run [Click ''7'', Click ''7''] buttonPage) = [''7'']"
    by (simp add: buttonPage_def click_step_def cycleRouteStatus_def showLoadingState_def
          notPresentButton_def Let_def)
  ultimately show ?thesis by simp
qed

section \<open>Local changes and the sync\<close>








section \<open>Repeated cycle-status calls\<close>


text \<open>On the three statuses the \<^verbatim>\<open>switch\<close> of the client computes the step of the endpoint.\<close>

lemma newStatus_advance: "newStatus (Some (statusName s)) = statusName (advance s)"
  by (cases s) (simp_all add: newStatus_def)






end
